theory Spec2Isabelle
  imports Complex_Main "HOL-Library.Multiset"
begin

section \<open>Cards, hands and the shoe (blackjackai.py, lines 11-125)\<close>

text \<open>
  Python floats (bankroll, bets, true count) are modelled as exact reals; the penetration,
  whose conversion to an integer can fail, is a float that may also be infinite or NaN.
  Python integers as \<open>int\<close>, list lengths as \<open>nat\<close>.  A card's rank is one of the
  thirteen strings of \<open>Card.RANKS\<close> and its suit one of the four of \<open>Card.SUITS\<close>; these
  are the only cards the shoe ever builds.
\<close>

datatype Action = HIT | STAND | DOUBLE | SPLIT

datatype Rank = R2 | R3 | R4 | R5 | R6 | R7 | R8 | R9 | R10 | RJ | RQ | RK | RA

datatype Suit = Spades | Hearts | Diamonds | Clubs

record Card =
  rank :: Rank
  suit :: Suit

text \<open>An exception of the Python run: \<open>list.pop()\<close> on an empty list and \<open>cards[0]\<close> on an
  empty hand raise \<open>IndexError\<close>; \<open>Diverges\<close> stands for a \<open>while True\<close> iteration that changes
  nothing and so repeats forever; \<open>ValueError\<close> and \<open>OverflowError\<close> are what \<open>int(x)\<close>
  raises on a NaN and on an infinite float; \<open>ConfigurationError\<close> is the rejection that
  the specification names for session creation (no statement of the source raises it).\<close>

datatype error = IndexError | Diverges | ValueError | OverflowError | ConfigurationError

definition RANKS :: "Rank list" where
  "RANKS = [R2, R3, R4, R5, R6, R7, R8, R9, R10, RJ, RQ, RK, RA]"

definition SUITS :: "Suit list" where
  "SUITS = [Spades, Hearts, Diamonds, Clubs]"

fun rankValue :: "Rank \<Rightarrow> int" where
  "rankValue RJ = 10"
| "rankValue RQ = 10"
| "rankValue RK = 10"
| "rankValue RA = 11"
| "rankValue R2 = 2"
| "rankValue R3 = 3"
| "rankValue R4 = 4"
| "rankValue R5 = 5"
| "rankValue R6 = 6"
| "rankValue R7 = 7"
| "rankValue R8 = 8"
| "rankValue R9 = 9"
| "rankValue R10 = 10"

definition Card_getValue :: "Card \<Rightarrow> int" where
  "Card_getValue c = rankValue (rank c)"

record Deck =
  numDecks :: nat
  deck_cards :: "Card list"
  totalCards :: nat

text \<open>\<open>Deck.reset\<close> builds the shoe deck by deck, suit by suit, rank by rank, and then calls
  \<open>random.shuffle\<close>.  The outcome of the shuffle is a parameter: \<open>shuffle\<close> maps the built
  list to the list the random source leaves behind.\<close>

definition buildShoe :: "nat \<Rightarrow> Card list" where
  "buildShoe n =
     concat (replicate n (concat (map (\<lambda>s. map (\<lambda>r. \<lparr>rank = r, suit = s\<rparr>) RANKS) SUITS)))"

definition Deck_reset :: "(Card list \<Rightarrow> Card list) \<Rightarrow> Deck \<Rightarrow> Deck" where
  "Deck_reset shuffle d = d\<lparr>deck_cards := shuffle (buildShoe (numDecks d))\<rparr>"

definition Deck_init :: "(Card list \<Rightarrow> Card list) \<Rightarrow> nat \<Rightarrow> Deck" where
  "Deck_init shuffle n =
     Deck_reset shuffle \<lparr>numDecks = n, deck_cards = [], totalCards = n * 52\<rparr>"

text \<open>\<open>dealCard\<close> is \<open>self.cards.pop()\<close>: the last element of the list, or IndexError.\<close>

definition dealCard :: "Deck \<Rightarrow> error + (Card \<times> Deck)" where
  "dealCard d =
     (if deck_cards d = [] then Inl IndexError
      else Inr (last (deck_cards d), d\<lparr>deck_cards := butlast (deck_cards d)\<rparr>))"

definition cardsRemaining :: "Deck \<Rightarrow> nat" where
  "cardsRemaining d = length (deck_cards d)"

definition decksRemaining :: "Deck \<Rightarrow> real" where
  "decksRemaining d = real (length (deck_cards d)) / 52"

definition needsReshuffle :: "Deck \<Rightarrow> int \<Rightarrow> bool" where
  "needsReshuffle d reshufflePoint \<longleftrightarrow> int (length (deck_cards d)) < reshufflePoint"

record Hand =
  cards :: "Card list"
  betAmount :: real
  isDoubled :: bool
  wasSplit :: bool

definition Hand_init :: Hand where
  "Hand_init = \<lparr>cards = [], betAmount = 0, isDoubled = False, wasSplit = False\<rparr>"

definition addCard :: "Hand \<Rightarrow> Card \<Rightarrow> Hand" where
  "addCard h c = h\<lparr>cards := cards h @ [c]\<rparr>"

definition rawTotal :: "Hand \<Rightarrow> int" where
  "rawTotal h = sum_list (map Card_getValue (cards h))"

definition countAces :: "Hand \<Rightarrow> nat" where
  "countAces h = length (filter (\<lambda>c. rank c = RA) (cards h))"

text \<open>The loop of \<open>Hand.getValue\<close> (lines 98-100); it returns both loop variables, the total
  and the number of aces that are still counted as 11.\<close>

fun aceReduction :: "int \<Rightarrow> nat \<Rightarrow> int \<times> nat" where
  "aceReduction totalValue numAces =
     (if totalValue > 21 \<and> numAces > 0 then aceReduction (totalValue - 10) (numAces - 1)
      else (totalValue, numAces))"

declare aceReduction.simps [simp del]

definition Hand_getValue :: "Hand \<Rightarrow> int" where
  "Hand_getValue h = fst (aceReduction (rawTotal h) (countAces h))"

definition isSoft :: "Hand \<Rightarrow> bool" where
  "isSoft h \<longleftrightarrow> countAces h > 0 \<and> rawTotal h \<le> 21"

definition isBlackjack :: "Hand \<Rightarrow> bool" where
  "isBlackjack h \<longleftrightarrow> length (cards h) = 2 \<and> Hand_getValue h = 21"

definition isBusted :: "Hand \<Rightarrow> bool" where
  "isBusted h \<longleftrightarrow> Hand_getValue h > 21"

definition Hand_canSplit :: "Hand \<Rightarrow> bool" where
  "Hand_canSplit h \<longleftrightarrow>
     length (cards h) = 2 \<and> Card_getValue (cards h ! 0) = Card_getValue (cards h ! 1)"

text \<open>The specification's reading of "soft": after the ace reduction of the value
  computation at least one ace is still counted as 11, and the value is at most 21.\<close>

definition acesAsEleven :: "Hand \<Rightarrow> nat" where
  "acesAsEleven h = snd (aceReduction (rawTotal h) (countAces h))"

definition isSoft_spec :: "Hand \<Rightarrow> bool" where
  "isSoft_spec h \<longleftrightarrow> acesAsEleven h > 0 \<and> Hand_getValue h \<le> 21"

definition handOf :: "Rank list \<Rightarrow> Hand" where
  "handOf rs = Hand_init\<lparr>cards := map (\<lambda>r. \<lparr>rank = r, suit = Spades\<rparr>) rs\<rparr>"

section \<open>The Hi-Lo counter (lines 128-183)\<close>

record CardCounter =
  runningCount :: int
  cardsSeen :: int

definition CardCounter_init :: CardCounter where
  "CardCounter_init = \<lparr>runningCount = 0, cardsSeen = 0\<rparr>"

definition countValue :: "Card \<Rightarrow> int" where
  "countValue c =
     (if rank c \<in> set [R2, R3, R4, R5, R6] then 1
      else if rank c \<in> set [R7, R8, R9] then 0
      else - 1)"

definition countCard :: "CardCounter \<Rightarrow> Card \<Rightarrow> int \<times> CardCounter" where
  "countCard k c =
     (countValue c,
      k\<lparr>runningCount := runningCount k + countValue c, cardsSeen := cardsSeen k + 1\<rparr>)"

definition getTrueCount :: "CardCounter \<Rightarrow> real \<Rightarrow> real" where
  "getTrueCount k decks = (if decks \<le> 0 then 0 else real_of_int (runningCount k) / decks)"

definition CardCounter_reset :: "CardCounter \<Rightarrow> CardCounter" where
  "CardCounter_reset k = k\<lparr>runningCount := 0, cardsSeen := 0\<rparr>"

section \<open>Bet sizing (lines 186-238)\<close>

record BankrollManager =
  bm_baseBet :: real
  maxBetMultiplier :: real

definition getBetAmount :: "BankrollManager \<Rightarrow> real \<Rightarrow> real \<Rightarrow> real" where
  "getBetAmount m trueCount currentBankroll =
     (let multiplier =
            (if trueCount < 1 then 1
             else if trueCount < 2 then 2
             else if trueCount < 3 then 4
             else if trueCount < 4 then 6
             else 8);
          multiplier = min multiplier (maxBetMultiplier m);
          bet = bm_baseBet m * multiplier;
          maxAllowedBet = currentBankroll * 0.05;
          bet = min bet maxAllowedBet;
          bet = min bet currentBankroll
      in max (bm_baseBet m) bet)"

section \<open>Basic strategy (lines 241-389)\<close>

definition hardHandStrategy :: "int \<Rightarrow> int \<Rightarrow> bool \<Rightarrow> Action" where
  "hardHandStrategy playerValue dealerValue canDouble =
     (if playerValue \<ge> 17 then STAND
      else if 13 \<le> playerValue \<and> playerValue \<le> 16 then
        (if 2 \<le> dealerValue \<and> dealerValue \<le> 6 then STAND else HIT)
      else if playerValue = 12 then
        (if 4 \<le> dealerValue \<and> dealerValue \<le> 6 then STAND else HIT)
      else if playerValue = 11 then
        (if canDouble then DOUBLE else HIT)
      else if playerValue = 10 then
        (if canDouble \<and> dealerValue \<le> 9 then DOUBLE else HIT)
      else if playerValue = 9 then
        (if canDouble \<and> 3 \<le> dealerValue \<and> dealerValue \<le> 6 then DOUBLE else HIT)
      else HIT)"

definition softHandStrategy :: "int \<Rightarrow> int \<Rightarrow> bool \<Rightarrow> Action" where
  "softHandStrategy playerValue dealerValue canDouble =
     (if playerValue \<ge> 19 then STAND
      else if playerValue = 18 then
        (if canDouble \<and> dealerValue \<in> set [3, 4, 5, 6] then DOUBLE
         else if dealerValue \<in> set [2, 7, 8] then STAND
         else HIT)
      else if playerValue = 17 then
        (if canDouble \<and> dealerValue \<in> set [3, 4, 5, 6] then DOUBLE else HIT)
      else if playerValue \<in> set [15, 16] then
        (if canDouble \<and> dealerValue \<in> set [4, 5, 6] then DOUBLE else HIT)
      else if playerValue \<in> set [13, 14] then
        (if canDouble \<and> dealerValue \<in> set [5, 6] then DOUBLE else HIT)
      else HIT)"

text \<open>\<open>pairSplittingStrategy\<close> reads \<open>playerHand.cards[0]\<close>, which raises on an empty hand.
  The two calls of \<open>hardHandStrategy\<close> pass the literal \<open>True\<close> for \<open>canDouble\<close>.\<close>

definition pairSplittingStrategy :: "Hand \<Rightarrow> int \<Rightarrow> error + Action" where
  "pairSplittingStrategy playerHand dealerValue =
     (case cards playerHand of
        [] \<Rightarrow> Inl IndexError
      | c # _ \<Rightarrow>
          Inr (let cardValue = Card_getValue c in
            if cardValue = 11 \<or> cardValue = 8 then SPLIT
            else if cardValue = 5 \<or> cardValue = 10 then
              hardHandStrategy (Hand_getValue playerHand) dealerValue True
            else if cardValue \<in> set [2, 3, 7] \<and> 2 \<le> dealerValue \<and> dealerValue \<le> 7 then SPLIT
            else if cardValue = 4 \<and> 5 \<le> dealerValue \<and> dealerValue \<le> 6 then SPLIT
            else if cardValue = 6 \<and> 2 \<le> dealerValue \<and> dealerValue \<le> 6 then SPLIT
            else if cardValue = 9
                    \<and> ((2 \<le> dealerValue \<and> dealerValue \<le> 6) \<or> (8 \<le> dealerValue \<and> dealerValue \<le> 9))
              then SPLIT
            else hardHandStrategy (Hand_getValue playerHand) dealerValue True))"

definition getAction :: "Hand \<Rightarrow> Card \<Rightarrow> bool \<Rightarrow> bool \<Rightarrow> error + Action" where
  "getAction playerHand dealerUpcard canDouble canSplit =
     (let playerValue = Hand_getValue playerHand;
          dealerValue = Card_getValue dealerUpcard
      in if canSplit \<and> Hand_canSplit playerHand then
           pairSplittingStrategy playerHand dealerValue
         else if isSoft playerHand \<and> length (cards playerHand) = 2 then
           Inr (softHandStrategy playerValue dealerValue canDouble)
         else Inr (hardHandStrategy playerValue dealerValue canDouble))"

section \<open>Floats that may be infinite or NaN\<close>

text \<open>A Python float is a finite value, an infinity or NaN.  Finite values are exact reals:
  rounding inside the range is left out, overflow is kept.  \<open>maxFloat\<close> is the largest
  finite double, and \<open>floatResult r\<close> the float that an operation with exact result \<open>r\<close>
  yields.\<close>

datatype pyfloat = Finite real | PosInf | NegInf | NaN

definition maxFloat :: real where
  "maxFloat = 2 ^ 1024 - 2 ^ 971"

definition floatResult :: "real \<Rightarrow> pyfloat" where
  "floatResult r = (if r > maxFloat then PosInf else if r < - maxFloat then NegInf else Finite r)"

text \<open>\<open>1 - x\<close> on a float, and \<open>k * x\<close> for a Python integer \<open>k\<close> and a float \<open>x\<close>.\<close>

fun oneMinus :: "pyfloat \<Rightarrow> pyfloat" where
  "oneMinus (Finite x) = floatResult (1 - x)"
| "oneMinus PosInf = NegInf"
| "oneMinus NegInf = PosInf"
| "oneMinus NaN = NaN"

fun intTimes :: "int \<Rightarrow> pyfloat \<Rightarrow> pyfloat" where
  "intTimes k (Finite x) = floatResult (real_of_int k * x)"
| "intTimes k PosInf = (if k = 0 then NaN else if k > 0 then PosInf else NegInf)"
| "intTimes k NegInf = (if k = 0 then NaN else if k > 0 then NegInf else PosInf)"
| "intTimes k NaN = NaN"

text \<open>Python's \<open>int(x)\<close> on a float truncates towards zero; it raises \<open>ValueError\<close> on NaN
  and \<open>OverflowError\<close> on an infinity.\<close>

definition truncReal :: "real \<Rightarrow> int" where
  "truncReal x = (if 0 \<le> x then \<lfloor>x\<rfloor> else \<lceil>x\<rceil>)"

fun py_int :: "pyfloat \<Rightarrow> error + int" where
  "py_int (Finite x) = Inr (truncReal x)"
| "py_int PosInf = Inl OverflowError"
| "py_int NegInf = Inl OverflowError"
| "py_int NaN = Inl ValueError"

section \<open>The game engine (lines 392-692)\<close>

record BlackjackGame =
  deck :: Deck
  bankroll :: real
  baseBet :: real
  useCardCounting :: bool
  useWonging :: bool
  wongingThreshold :: real
  penetration :: pyfloat
  reshufflePoint :: int
  counter :: CardCounter
  bankrollManager :: BankrollManager
  handsPlayed :: int
  handsWon :: int
  handsLost :: int
  handsPushed :: int
  handsSatOut :: int
  totalWagered :: real
  maxBankroll :: real
  minBankroll :: real

text \<open>\<open>BlackjackGame.__init__\<close> (lines 395-432).  The constructor contains no check and no
  \<open>raise\<close> of its own.  The one statement of it that can fail is line 418,
  \<open>int(self.deck.numDecks * 52 * (1 - penetration))\<close>; the shoe is built (and shuffled)
  before it, and when it raises no session object comes into being.\<close>

definition BlackjackGame_init ::
  "(Card list \<Rightarrow> Card list) \<Rightarrow> real \<Rightarrow> real \<Rightarrow> bool \<Rightarrow> pyfloat \<Rightarrow> bool \<Rightarrow> real
     \<Rightarrow> error + BlackjackGame" where
  "BlackjackGame_init shuffle startingBankroll baseBet0 useCardCounting0 penetration0
       useWonging0 wongingThreshold0 =
     (let deck0 = Deck_init shuffle 6 in
      case py_int (intTimes (int (numDecks deck0) * 52) (oneMinus penetration0)) of
        Inl e \<Rightarrow> Inl e
      | Inr reshufflePoint0 \<Rightarrow>
          Inr \<lparr>deck = deck0,
               bankroll = startingBankroll,
               baseBet = baseBet0,
               useCardCounting = useCardCounting0,
               useWonging = useWonging0,
               wongingThreshold = wongingThreshold0,
               penetration = penetration0,
               reshufflePoint = reshufflePoint0,
               counter = CardCounter_init,
               bankrollManager = \<lparr>bm_baseBet = baseBet0, maxBetMultiplier = 10\<rparr>,
               handsPlayed = 0,
               handsWon = 0,
               handsLost = 0,
               handsPushed = 0,
               handsSatOut = 0,
               totalWagered = 0,
               maxBankroll = startingBankroll,
               minBankroll = startingBankroll\<rparr>)"

type_synonym 'a outcome = "(error \<times> BlackjackGame) + ('a \<times> BlackjackGame)"

text \<open>An exception leaves the session object as it was when the exception was raised, so the
  left injection carries the state too.  \<open>game_dealCard\<close> is the call
  \<open>self.deck.dealCard()\<close>, \<open>game_countCard\<close> the call \<open>self.counter.countCard(card)\<close>.\<close>

definition game_dealCard :: "BlackjackGame \<Rightarrow> Card outcome" where
  "game_dealCard g =
     (case dealCard (deck g) of
        Inl e \<Rightarrow> Inl (e, g)
      | Inr (crd, d) \<Rightarrow> Inr (crd, g\<lparr>deck := d\<rparr>))"

definition game_countCard :: "BlackjackGame \<Rightarrow> Card \<Rightarrow> BlackjackGame" where
  "game_countCard g crd = g\<lparr>counter := snd (countCard (counter g) crd)\<rparr>"

definition updateBankrollStats :: "BlackjackGame \<Rightarrow> BlackjackGame" where
  "updateBankrollStats g =
     (let g = g\<lparr>maxBankroll := max (maxBankroll g) (bankroll g)\<rparr>
      in g\<lparr>minBankroll := min (minBankroll g) (bankroll g)\<rparr>)"

text \<open>Lines 442-448: the reshuffle check at the start of \<open>playHand\<close>.\<close>

definition reshuffleCheck :: "(Card list \<Rightarrow> Card list) \<Rightarrow> BlackjackGame \<Rightarrow> BlackjackGame" where
  "reshuffleCheck shuffle g =
     (if needsReshuffle (deck g) (reshufflePoint g) then
        (let g = g\<lparr>deck := Deck_reset shuffle (deck g)\<rparr>
         in g\<lparr>counter := CardCounter_reset (counter g)\<rparr>)
      else g)"

text \<open>Lines 466-471: the loop \<open>for _ in range(4)\<close> of the sat-out path.\<close>

fun burnLoop :: "nat \<Rightarrow> BlackjackGame \<Rightarrow> Card list \<Rightarrow> (Card list) outcome" where
  "burnLoop 0 g burnCards = Inr (burnCards, g)"
| "burnLoop (Suc n) g burnCards =
     (if length (deck_cards (deck g)) > 0 then
        (case game_dealCard g of
           Inl e \<Rightarrow> Inl e
         | Inr (crd, g) \<Rightarrow>
             let g = game_countCard g crd
             in burnLoop n g (burnCards @ [crd]))
      else burnLoop n g burnCards)"

text \<open>Lines 496-503: the loop \<open>for i in range(2)\<close> of the initial deal.\<close>

fun initialDeal :: "nat \<Rightarrow> BlackjackGame \<Rightarrow> Hand \<Rightarrow> Hand \<Rightarrow> (Hand \<times> Hand) outcome" where
  "initialDeal 0 g playerHand dealerHand = Inr ((playerHand, dealerHand), g)"
| "initialDeal (Suc n) g playerHand dealerHand =
     (case game_dealCard g of
        Inl e \<Rightarrow> Inl e
      | Inr (crd, g) \<Rightarrow>
          let playerHand = addCard playerHand crd;
              g = game_countCard g crd
          in (case game_dealCard g of
                Inl e \<Rightarrow> Inl e
              | Inr (crd, g) \<Rightarrow>
                  let dealerHand = addCard dealerHand crd;
                      g = game_countCard g crd
                  in initialDeal n g playerHand dealerHand))"

lemma game_dealCard_shrinks [termination_simp]:
  "game_dealCard g = Inr (crd, g') \<Longrightarrow>
     length (deck_cards (deck (game_countCard g' crd'))) < length (deck_cards (deck g))"
  by (auto simp: game_dealCard_def dealCard_def game_countCard_def split: if_splits)

text \<open>\<open>playPlayerHand\<close> (lines 588-660): the \<open>while True\<close> loop.  The result is the returned
  profit (\<open>None\<close> when the dealer has to play) and the player's hand, which the method
  mutates in place.  The loop has no branch for \<open>Action.SPLIT\<close>: that iteration changes
  nothing and the loop repeats it.\<close>

function playPlayerHand ::
  "BlackjackGame \<Rightarrow> Hand \<Rightarrow> Card \<Rightarrow> (real option \<times> Hand) outcome" where
  "playPlayerHand g playerHand dealerUpcard =
     (let canDouble = (length (cards playerHand) = 2 \<and> bankroll g \<ge> betAmount playerHand) in
      case getAction playerHand dealerUpcard canDouble False of
        Inl e \<Rightarrow> Inl (e, g)
      | Inr action \<Rightarrow>
          if action = HIT then
            (case game_dealCard g of
               Inl e \<Rightarrow> Inl e
             | Inr (crd, g1) \<Rightarrow>
                 let playerHand1 = addCard playerHand crd;
                     g2 = game_countCard g1 crd
                 in if isBusted playerHand1 then
                      (let g3 = g2\<lparr>bankroll := bankroll g2 - betAmount playerHand1\<rparr>;
                           g4 = g3\<lparr>handsLost := handsLost g3 + 1\<rparr>
                       in Inr ((Some (- betAmount playerHand1), playerHand1), g4))
                    else playPlayerHand g2 playerHand1 dealerUpcard)
          else if action = STAND then Inr ((None, playerHand), g)
          else if action = DOUBLE then
            (if canDouble then
               (let playerHand1 = playerHand\<lparr>isDoubled := True\<rparr>;
                    playerHand2 = playerHand1\<lparr>betAmount := betAmount playerHand1 * 2\<rparr>
                in case game_dealCard g of
                     Inl e \<Rightarrow> Inl e
                   | Inr (crd, g1) \<Rightarrow>
                       let playerHand3 = addCard playerHand2 crd;
                           g2 = game_countCard g1 crd
                       in if isBusted playerHand3 then
                            (let g3 = g2\<lparr>bankroll := bankroll g2 - betAmount playerHand3\<rparr>;
                                 g4 = g3\<lparr>handsLost := handsLost g3 + 1\<rparr>
                             in Inr ((Some (- betAmount playerHand3), playerHand3), g4))
                          else Inr ((None, playerHand3), g2))
             else
               (case game_dealCard g of
                  Inl e \<Rightarrow> Inl e
                | Inr (crd, g1) \<Rightarrow>
                    let playerHand1 = addCard playerHand crd;
                        g2 = game_countCard g1 crd
                    in if isBusted playerHand1 then
                         (let g3 = g2\<lparr>bankroll := bankroll g2 - betAmount playerHand1\<rparr>;
                              g4 = g3\<lparr>handsLost := handsLost g3 + 1\<rparr>
                          in Inr ((Some (- betAmount playerHand1), playerHand1), g4))
                       else playPlayerHand g2 playerHand1 dealerUpcard))
          else Inl (Diverges, g))"
  by pat_completeness auto
termination
  by (relation "measure (\<lambda>(g, playerHand, dealerUpcard). length (deck_cards (deck g)))")
     (auto simp: game_dealCard_shrinks)

declare playPlayerHand.simps [simp del]

text \<open>Lines 569-572: the dealer's loop \<open>while dealerHand.getValue() < 17\<close>.\<close>

function dealerTurn :: "BlackjackGame \<Rightarrow> Hand \<Rightarrow> Hand outcome" where
  "dealerTurn g dealerHand =
     (if Hand_getValue dealerHand < 17 then
        (case game_dealCard g of
           Inl e \<Rightarrow> Inl e
         | Inr (crd, g1) \<Rightarrow>
             let dealerHand1 = addCard dealerHand crd;
                 g2 = game_countCard g1 crd
             in dealerTurn g2 dealerHand1)
      else Inr (dealerHand, g))"
  by pat_completeness auto
termination
  by (relation "measure (\<lambda>(g, dealerHand). length (deck_cards (deck g)))")
     (auto simp: game_dealCard_shrinks)

declare dealerTurn.simps [simp del]

text \<open>\<open>determineWinner\<close> (lines 662-687).\<close>

definition determineWinner :: "BlackjackGame \<Rightarrow> Hand \<Rightarrow> Hand \<Rightarrow> real \<times> BlackjackGame" where
  "determineWinner g playerHand dealerHand =
     (let playerValue = Hand_getValue playerHand;
          dealerValue = Hand_getValue dealerHand;
          bet = betAmount playerHand
      in if isBusted dealerHand \<or> playerValue > dealerValue then
           (let g = g\<lparr>bankroll := bankroll g + bet\<rparr>;
                g = g\<lparr>handsWon := handsWon g + 1\<rparr>
            in (bet, g))
         else if playerValue < dealerValue then
           (let g = g\<lparr>bankroll := bankroll g - bet\<rparr>;
                g = g\<lparr>handsLost := handsLost g + 1\<rparr>
            in (- bet, g))
         else (0, g\<lparr>handsPushed := handsPushed g + 1\<rparr>))"

text \<open>Lines 520-586 of \<open>playHand\<close>: what follows the initial deal.  The wager is added to
  the total, naturals are settled, then the player's turn, the dealer's turn and the
  comparison of the hands.  \<open>dealerHand.cards[0]\<close> is the dealer's upcard.\<close>

definition resolveHand :: "real \<Rightarrow> Hand \<Rightarrow> Hand \<Rightarrow> BlackjackGame \<Rightarrow> real outcome" where
  "resolveHand bet playerHand dealerHand g =
     (let g = g\<lparr>totalWagered := totalWagered g + bet\<rparr>
      in if isBlackjack playerHand then
           (if isBlackjack dealerHand then
              (let g = g\<lparr>handsPushed := handsPushed g + 1\<rparr>;
                   g = g\<lparr>handsPlayed := handsPlayed g + 1\<rparr>
               in Inr (0, g))
            else
              (let profit = bet * 1.5;
                   g = g\<lparr>bankroll := bankroll g + profit\<rparr>;
                   g = g\<lparr>handsWon := handsWon g + 1\<rparr>;
                   g = g\<lparr>handsPlayed := handsPlayed g + 1\<rparr>;
                   g = updateBankrollStats g
               in Inr (profit, g)))
         else if isBlackjack dealerHand then
           (let g = g\<lparr>bankroll := bankroll g - bet\<rparr>;
                g = g\<lparr>handsLost := handsLost g + 1\<rparr>;
                g = g\<lparr>handsPlayed := handsPlayed g + 1\<rparr>;
                g = updateBankrollStats g
            in Inr (- bet, g))
         else
           (case cards dealerHand of
              [] \<Rightarrow> Inl (IndexError, g)
            | upcard # _ \<Rightarrow>
                (case playPlayerHand g playerHand upcard of
                   Inl e \<Rightarrow> Inl e
                 | Inr ((Some result, playerHand), g) \<Rightarrow>
                     let g = g\<lparr>handsPlayed := handsPlayed g + 1\<rparr>;
                         g = updateBankrollStats g
                     in Inr (result, g)
                 | Inr ((None, playerHand), g) \<Rightarrow>
                     (case dealerTurn g dealerHand of
                        Inl e \<Rightarrow> Inl e
                      | Inr (dealerHand, g) \<Rightarrow>
                          let (profit, g) = determineWinner g playerHand dealerHand;
                              g = g\<lparr>handsPlayed := handsPlayed g + 1\<rparr>;
                              g = updateBankrollStats g
                          in Inr (profit, g)))))"

text \<open>\<open>playHand\<close> (lines 434-586) with \<open>verbose = False\<close>; printing changes no state.
  \<open>shuffle\<close> is the outcome of the shuffle this call would perform if it reshuffles.\<close>

definition playHand :: "(Card list \<Rightarrow> Card list) \<Rightarrow> BlackjackGame \<Rightarrow> real outcome" where
  "playHand shuffle g0 =
     (let g = reshuffleCheck shuffle g0;
          trueCount = getTrueCount (counter g) (decksRemaining (deck g))
      in if useWonging g \<and> trueCount < wongingThreshold g then
           (let g = g\<lparr>handsSatOut := handsSatOut g + 1\<rparr>
            in case burnLoop 4 g [] of
                 Inl e \<Rightarrow> Inl e
               | Inr (burnCards, g) \<Rightarrow> Inr (0, g))
         else
           (let bet = (if useCardCounting g
                       then getBetAmount (bankrollManager g) trueCount (bankroll g)
                       else baseBet g)
            in if bankroll g < bet then Inr (0, g)
               else
                 (let playerHand = Hand_init;
                      dealerHand = Hand_init;
                      playerHand = playerHand\<lparr>betAmount := bet\<rparr>
                  in case initialDeal 2 g playerHand dealerHand of
                       Inl e \<Rightarrow> Inl e
                     | Inr ((playerHand, dealerHand), g) \<Rightarrow>
                         resolveHand bet playerHand dealerHand g)))"

text \<open>A sequence of \<open>playHand\<close> calls on one session, as the callers make them; an
  exception ends the sequence.\<close>

fun playHands :: "(Card list \<Rightarrow> Card list) list \<Rightarrow> BlackjackGame \<Rightarrow> (error \<times> BlackjackGame) + BlackjackGame" where
  "playHands [] g = Inr g"
| "playHands (shuffle # later) g =
     (case playHand shuffle g of
        Inl e \<Rightarrow> Inl e
      | Inr (profit, g') \<Rightarrow> playHands later g')"

section \<open>The statistics snapshot (blackjackapp.py, lines 343-369)\<close>

record Stats =
  st_handsPlayed :: int
  st_handsSatOut :: int
  st_totalOpportunities :: int
  st_handsWon :: int
  st_handsLost :: int
  st_handsPushed :: int
  st_bankroll :: real
  st_profit :: real
  st_roi :: real
  st_totalWagered :: real
  st_maxBankroll :: real
  st_minBankroll :: real
  st_runningCount :: int
  st_trueCount :: real
  st_decksRemaining :: real

text \<open>\<open>getStats\<close> reads the global \<open>game\<close>, which is \<open>None\<close> before the first session; the
  empty dictionary it returns then is \<open>None\<close> here.\<close>

definition getStats :: "BlackjackGame option \<Rightarrow> Stats option" where
  "getStats game =
     (case game of
        None \<Rightarrow> None
      | Some g \<Rightarrow>
          let profit = bankroll g - 1000;
              roi = (if totalWagered g > 0 then profit / totalWagered g * 100 else 0);
              totalOpportunities = handsPlayed g + handsSatOut g
          in Some \<lparr>st_handsPlayed = handsPlayed g,
                   st_handsSatOut = handsSatOut g,
                   st_totalOpportunities = totalOpportunities,
                   st_handsWon = handsWon g,
                   st_handsLost = handsLost g,
                   st_handsPushed = handsPushed g,
                   st_bankroll = bankroll g,
                   st_profit = profit,
                   st_roi = roi,
                   st_totalWagered = totalWagered g,
                   st_maxBankroll = maxBankroll g,
                   st_minBankroll = minBankroll g,
                   st_runningCount = runningCount (counter g),
                   st_trueCount = getTrueCount (counter g) (decksRemaining (deck g)),
                   st_decksRemaining = decksRemaining (deck g)\<rparr>)"

section \<open>Notions used in the statements\<close>

text \<open>The session as it is after a call, whether the call returned or raised.\<close>

definition stateAfter :: "'a outcome \<Rightarrow> BlackjackGame" where
  "stateAfter r = (case r of Inl (e, g) \<Rightarrow> g | Inr (x, g) \<Rightarrow> g)"

text \<open>The Hi-Lo sum of the cards still in the shoe.\<close>

definition unseenCount :: "BlackjackGame \<Rightarrow> int" where
  "unseenCount g = sum_list (map countValue (deck_cards (deck g)))"

text \<open>Counter and shoe are in step: the cards seen and the cards left make up the whole
  shoe, and the running count is the Hi-Lo sum of the cards that are gone (the built shoe
  sums to 0, so this is minus the sum of the cards left).\<close>

definition countInSync :: "BlackjackGame \<Rightarrow> bool" where
  "countInSync g \<longleftrightarrow>
     cardsSeen (counter g) + int (length (deck_cards (deck g))) = int (52 * numDecks (deck g))
     \<and> runningCount (counter g) + unseenCount g = 0"

definition syncOf :: "BlackjackGame \<Rightarrow> int \<times> int \<times> nat" where
  "syncOf g =
     (cardsSeen (counter g) + int (length (deck_cards (deck g))),
      runningCount (counter g) + unseenCount g,
      numDecks (deck g))"

text \<open>The dealer's turn took \<open>drawn\<close>, in this order, from the top of the shoe, and before
  each of these draws the dealer's hand was worth less than 17.\<close>

definition dealerTrace ::
  "BlackjackGame \<Rightarrow> Hand \<Rightarrow> BlackjackGame \<Rightarrow> Hand \<Rightarrow> Card list \<Rightarrow> bool" where
  "dealerTrace g dh g' dh' drawn \<longleftrightarrow>
     cards dh' = cards dh @ drawn
     \<and> deck_cards (deck g) = deck_cards (deck g') @ rev drawn
     \<and> (\<forall>k < length drawn. Hand_getValue (dh\<lparr>cards := cards dh @ take k drawn\<rparr>) < 17)"

text \<open>A session with the configuration of \<open>main()\<close> in the middle of a shoe: \<open>cs\<close> are the
  cards left, the counter has seen the others.\<close>

definition sessionWithShoe :: "Card list \<Rightarrow> BlackjackGame" where
  "sessionWithShoe cs =
     \<lparr>deck = \<lparr>numDecks = 6, deck_cards = cs, totalCards = 312\<rparr>,
      bankroll = 1000,
      baseBet = 10,
      useCardCounting = True,
      useWonging = True,
      wongingThreshold = - 1,
      penetration = Finite 0.75,
      reshufflePoint = 78,
      counter = \<lparr>runningCount = - sum_list (map countValue cs),
                 cardsSeen = 312 - int (length cs)\<rparr>,
      bankrollManager = \<lparr>bm_baseBet = 10, maxBetMultiplier = 10\<rparr>,
      handsPlayed = 0,
      handsWon = 0,
      handsLost = 0,
      handsPushed = 0,
      handsSatOut = 0,
      totalWagered = 0,
      maxBankroll = 1000,
      minBankroll = 1000\<rparr>"

text \<open>The same session at the start of a shoe, with 5 left in the bankroll.\<close>

definition brokeSession :: BlackjackGame where
  "brokeSession = (sessionWithShoe (buildShoe 6))\<lparr>bankroll := 5\<rparr>"

text \<open>One deck as \<open>Deck.reset\<close> builds it, and the card at position \<open>k\<close> of the built
  shoe.\<close>

definition deck52 :: "Card list" where
  "deck52 = concat (map (\<lambda>s. map (\<lambda>r. \<lparr>rank = r, suit = s\<rparr>) RANKS) SUITS)"


definition cardAt :: "nat \<Rightarrow> Card" where
  "cardAt k = \<lparr>rank = RANKS ! (k mod 13), suit = SUITS ! (k mod 52 div 13)\<rparr>"

section \<open>Hands: value and softness\<close>

text \<open>
  Claim C1.  The specification calls a hand soft when, after the ace reduction of the value
  computation, an ace is still counted as 11 and the value is at most 21.  \<open>Hand.isSoft\<close>
  tests the total before any reduction instead.  On a pair of aces the value computation
  reduces one ace (total 12, one ace still worth 11), so the hand is soft in the sense of
  the specification and of the comment in the source ("has an ace counted as 11"), while
  \<open>isSoft\<close> answers False.
\<close>

theorem isSoft_pair_of_aces:
  "Hand_getValue (handOf [RA, RA]) = 12
   \<and> acesAsEleven (handOf [RA, RA]) = 1
   \<and> isSoft_spec (handOf [RA, RA]) = True
   \<and> isSoft (handOf [RA, RA]) = False"
  by (simp add: isSoft_def isSoft_spec_def handOf_def Hand_init_def rawTotal_def countAces_def
      Card_getValue_def acesAsEleven_def Hand_getValue_def aceReduction.simps)

section \<open>Basic strategy\<close>

text \<open>
  Claim C2.  With \<open>canDouble = False\<close> and \<open>canSplit = True\<close>, a pair of fives against a
  dealer six is answered with Double: \<open>pairSplittingStrategy\<close> falls through to
  \<open>hardHandStrategy\<close> with the literal \<open>True\<close> in place of the caller's \<open>canDouble\<close>.
\<close>

theorem getAction_pair_of_fives_doubles:
  "getAction (handOf [R5, R5]) \<lparr>rank = R6, suit = Hearts\<rparr> False True = Inr DOUBLE"
  by (simp add: getAction_def handOf_def Hand_init_def Hand_canSplit_def Card_getValue_def
      pairSplittingStrategy_def hardHandStrategy_def Hand_getValue_def rawTotal_def
      countAces_def aceReduction.simps)

section \<open>Bet sizing\<close>

lemma getBetAmount_unfold:
  "getBetAmount m t b =
     max (bm_baseBet m)
       (min (min (bm_baseBet m *
                    min (if t < 1 then 1 else if t < 2 then 2 else if t < 3 then 4
                         else if t < 4 then 6 else 8) (maxBetMultiplier m))
                 (b * 0.05)) b)"
  by (simp only: getBetAmount_def Let_def)

text \<open>
  Claim C3, as stated: the bet never exceeds 5 percent of the bankroll.  It fails when the
  base bet itself exceeds the cap, because the last step of \<open>getBetAmount\<close> raises the bet
  to the base bet: with base bet 10 and bankroll 100 the bet is 10, twice the cap of 5.
\<close>

theorem getBetAmount_cap_counterexample:
  "\<not> (getBetAmount \<lparr>bm_baseBet = 10, maxBetMultiplier = 10\<rparr> 0 100
        \<le> min (10 * 10) (min (0.05 * 100) 100))"
  by (simp add: getBetAmount_def)

text \<open>
  Claim C3, amended.  For a positive bankroll and base bet, the bet is at least the base bet;
  it lies in the interval from the base bet to the minimum of base bet times maximal
  multiplier, 5 percent of the bankroll and the bankroll whenever that interval is not
  empty, and it is the base bet otherwise.  On the example of the specification (base bet
  10, bankroll 1000, true count 3.5) it is 50.
\<close>

theorem getBetAmount_range:
  assumes "0 < b" and "0 < bm_baseBet m"
  shows "bm_baseBet m \<le> getBetAmount m t b
    \<and> (bm_baseBet m \<le> min (bm_baseBet m * maxBetMultiplier m) (min (0.05 * b) b)
         \<longrightarrow> getBetAmount m t b \<le> min (bm_baseBet m * maxBetMultiplier m) (min (0.05 * b) b))
    \<and> (\<not> bm_baseBet m \<le> min (bm_baseBet m * maxBetMultiplier m) (min (0.05 * b) b)
         \<longrightarrow> getBetAmount m t b = bm_baseBet m)
    \<and> getBetAmount \<lparr>bm_baseBet = 10, maxBetMultiplier = 10\<rparr> 3.5 1000 = 50"
proof -
  define mu :: real
    where "mu = (if t < 1 then 1 else if t < 2 then 2 else if t < 3 then 4
                 else if t < 4 then 6 else 8)"
  let ?M = "maxBetMultiplier m" and ?B = "bm_baseBet m"
  let ?top = "min (?B * ?M) (min (0.05 * b) b)"
  have eq: "getBetAmount m t b = max ?B (min (min (?B * min mu ?M) (b * 0.05)) b)"
    unfolding mu_def by (rule getBetAmount_unfold)
  have ge1: "1 \<le> mu" by (simp add: mu_def)
  have le: "?B * min mu ?M \<le> ?B * ?M" using assms by simp
  have lower: "?B \<le> getBetAmount m t b" unfolding eq by simp
  have upper: "getBetAmount m t b \<le> ?top" if "?B \<le> ?top"
    using that le unfolding eq by auto
  have floor: "getBetAmount m t b = ?B" if "\<not> ?B \<le> ?top"
  proof -
    have "?M < 1 \<or> 0.05 * b < ?B"
      using that assms by (auto simp: min_le_iff_disj not_le)
    then have "min (min (?B * min mu ?M) (b * 0.05)) b \<le> ?B"
    proof
      assume "?M < 1"
      then have "?B * min mu ?M \<le> ?B * 1"
        using assms by (intro mult_left_mono) simp_all
      then show ?thesis by (simp add: min.coboundedI1)
    next
      assume "0.05 * b < ?B"
      then show ?thesis by (simp add: min_le_iff_disj)
    qed
    then show ?thesis unfolding eq by (rule max_absorb1)
  qed
  have example: "getBetAmount \<lparr>bm_baseBet = 10, maxBetMultiplier = 10\<rparr> 3.5 1000 = 50"
    by (simp add: getBetAmount_def)
  from lower upper floor example show ?thesis by blast
qed

theorem getBetAmount_range_witness:
  "(0::real) < 1000 \<and> (0::real) < 10
   \<and> (10::real) \<le> min (10 * 10) (min (0.05 * 1000) 1000)
   \<and> 10 \<le> getBetAmount \<lparr>bm_baseBet = 10, maxBetMultiplier = 10\<rparr> 3.5 1000
   \<and> getBetAmount \<lparr>bm_baseBet = 10, maxBetMultiplier = 10\<rparr> 3.5 1000
        \<le> min (10 * 10) (min (0.05 * 1000) 1000)
   \<and> \<not> (10::real) \<le> min (10 * 10) (min (0.05 * 100) 100)
   \<and> getBetAmount \<lparr>bm_baseBet = 10, maxBetMultiplier = 10\<rparr> 0 100 = 10"
  using getBetAmount_range
      [where b = 1000 and m = "\<lparr>bm_baseBet = 10, maxBetMultiplier = 10\<rparr>" and t = "3.5"]
    getBetAmount_range
      [where b = 100 and m = "\<lparr>bm_baseBet = 10, maxBetMultiplier = 10\<rparr>" and t = 0]
  by simp

text \<open>
  Claim C9.  For a fixed bankroll, base bet and maximal multiplier, the bet does not decrease
  when the true count increases.  No assumption on the signs is needed: with a negative
  base bet the final floor makes the bet constant.
\<close>

theorem getBetAmount_mono:
  assumes "t1 \<le> t2"
  shows "getBetAmount m t1 b \<le> getBetAmount m t2 b"
proof -
  define mu :: "real \<Rightarrow> real"
    where "mu = (\<lambda>t. if t < 1 then 1 else if t < 2 then 2 else if t < 3 then 4
                      else if t < 4 then 6 else 8)"
  let ?M = "maxBetMultiplier m" and ?B = "bm_baseBet m"
  have eq: "getBetAmount m t b = max ?B (min (min (?B * min (mu t) ?M) (b * 0.05)) b)" for t
    unfolding mu_def by (rule getBetAmount_unfold)
  have mono: "mu t1 \<le> mu t2" using assms by (simp add: mu_def)
  have ge1: "1 \<le> mu t" for t by (simp add: mu_def)
  show ?thesis
  proof (cases "0 \<le> ?B")
    case True
    have "min (mu t1) ?M \<le> min (mu t2) ?M"
      using mono by (intro min.mono) simp_all
    then have "?B * min (mu t1) ?M \<le> ?B * min (mu t2) ?M"
      using True by (rule mult_left_mono)
    then show ?thesis unfolding eq by (intro max.mono min.mono) simp_all
  next
    case False
    show ?thesis
    proof (cases "1 \<le> ?M")
      case True
      have "getBetAmount m t b = ?B" for t
      proof -
        have "1 \<le> min (mu t) ?M" using ge1 [of t] True by simp
        then have "?B * min (mu t) ?M \<le> ?B * 1"
          using False by (intro mult_left_mono_neg) simp_all
        then have "min (min (?B * min (mu t) ?M) (b * 0.05)) b \<le> ?B"
          by (simp add: min.coboundedI1)
        then show ?thesis unfolding eq by (rule max_absorb1)
      qed
      then show ?thesis by simp
    next
      case False
      then have "min (mu t) ?M = ?M" for t
        using ge1 [of t] by (simp add: min_def)
      then show ?thesis unfolding eq by simp
    qed
  qed
qed

theorem getBetAmount_mono_witness:
  "(1::real) \<le> 3.5
   \<and> getBetAmount \<lparr>bm_baseBet = 10, maxBetMultiplier = 10\<rparr> 1 1000 = 20
   \<and> getBetAmount \<lparr>bm_baseBet = 10, maxBetMultiplier = 10\<rparr> 3.5 1000 = 50
   \<and> getBetAmount \<lparr>bm_baseBet = 10, maxBetMultiplier = 10\<rparr> 1 1000
        \<le> getBetAmount \<lparr>bm_baseBet = 10, maxBetMultiplier = 10\<rparr> 3.5 1000"
  using getBetAmount_mono
      [where ?t1.0 = 1 and ?t2.0 = "3.5"
         and m = "\<lparr>bm_baseBet = 10, maxBetMultiplier = 10\<rparr>" and b = 1000]
  by (simp add: getBetAmount_def)

section \<open>Session creation\<close>

lemma maxFloat_large: "312312 \<le> maxFloat"
  by (simp add: maxFloat_def)

lemma floatResult_Finite: "\<bar>r\<bar> \<le> maxFloat \<Longrightarrow> floatResult r = Finite r"
  by (auto simp: floatResult_def)


lemma maxFloat_pos: "0 < maxFloat"
  using maxFloat_large by simp

lemma reshufflePoint_in_range:
  assumes "\<bar>312 * (1 - p)\<bar> \<le> maxFloat"
  shows "py_int (intTimes 312 (oneMinus (Finite p))) = Inr (truncReal (312 * (1 - p)))"
proof -
  have "\<bar>1 - p\<bar> \<le> \<bar>312 * (1 - p)\<bar>" by (simp add: abs_mult)
  with assms have "\<bar>1 - p\<bar> \<le> maxFloat" by simp
  then have "oneMinus (Finite p) = Finite (1 - p)" by (simp add: floatResult_Finite)
  then show ?thesis using assms by (simp add: floatResult_Finite)
qed


lemma in_range_moderate: "\<bar>p\<bar> \<le> 1000 \<Longrightarrow> \<bar>312 * (1 - p)\<bar> \<le> maxFloat"
proof -
  assume "\<bar>p\<bar> \<le> 1000"
  then have "\<bar>1 - p\<bar> \<le> 1001" by linarith
  then have "\<bar>312 * (1 - p)\<bar> \<le> 312312" by (simp add: abs_mult)
  with maxFloat_large show ?thesis by linarith
qed

lemma numDecks_Deck_init: "numDecks (Deck_init shuffle n) = n"
  by (simp add: Deck_init_def Deck_reset_def)

lemma BlackjackGame_init_in_range:
  assumes "\<bar>312 * (1 - p)\<bar> \<le> maxFloat"
  shows "BlackjackGame_init shuffle startingBankroll baseBet0 counting (Finite p) wonging
           threshold =
     Inr \<lparr>deck = Deck_init shuffle 6,
          bankroll = startingBankroll,
          baseBet = baseBet0,
          useCardCounting = counting,
          useWonging = wonging,
          wongingThreshold = threshold,
          penetration = Finite p,
          reshufflePoint = truncReal (312 * (1 - p)),
          counter = CardCounter_init,
          bankrollManager = \<lparr>bm_baseBet = baseBet0, maxBetMultiplier = 10\<rparr>,
          handsPlayed = 0,
          handsWon = 0,
          handsLost = 0,
          handsPushed = 0,
          handsSatOut = 0,
          totalWagered = 0,
          maxBankroll = startingBankroll,
          minBankroll = startingBankroll\<rparr>"
  using reshufflePoint_in_range [OF assms]
  by (simp add: BlackjackGame_init_def Let_def numDecks_Deck_init)

lemmas BlackjackGame_init_moderate = BlackjackGame_init_in_range [OF in_range_moderate]


section \<open>The statistics snapshot\<close>

text \<open>
  Claim C10, as stated: the snapshot's ROI is the profit divided by the total wagered.  It
  fails by a factor: the code multiplies the quotient by 100.  With bankroll 1100 and 200
  wagered the reported ROI is 50, the quotient 1/2.
\<close>

theorem getStats_roi_counterexample:
  "case BlackjackGame_init (\<lambda>xs. xs) 1000 10 True (Finite 0.75) True (- 1) of
     Inl e \<Rightarrow> False
   | Inr g \<Rightarrow>
       (case getStats (Some (g\<lparr>bankroll := 1100, totalWagered := 200\<rparr>)) of
          None \<Rightarrow> False
        | Some s \<Rightarrow> st_profit s = 100 \<and> st_roi s = 50
                    \<and> st_roi s \<noteq> st_profit s / st_totalWagered s)"
  by (simp add: BlackjackGame_init_moderate getStats_def Let_def)

text \<open>
  Claim C10, amended.  For every session the snapshot reports the profit as the bankroll
  minus the constant 1000, and the ROI as that profit divided by the total wagered and
  multiplied by 100 (0 when nothing was wagered).  The reported profit equals the bankroll
  minus a starting bankroll exactly when that starting bankroll is 1000, and so does, when
  something was wagered, the reported ROI.
\<close>

theorem getStats_profit_roi:
  assumes "getStats (Some g) = Some s"
  shows "st_profit s = bankroll g - 1000
    \<and> st_roi s = (if totalWagered g > 0 then (bankroll g - 1000) / totalWagered g * 100 else 0)
    \<and> (st_profit s = bankroll g - startingBankroll \<longleftrightarrow> startingBankroll = 1000)
    \<and> (totalWagered g > 0 \<longrightarrow>
         (st_roi s = (bankroll g - startingBankroll) / totalWagered g * 100
            \<longleftrightarrow> startingBankroll = 1000))"
proof -
  have s: "st_profit s = bankroll g - 1000"
    "st_roi s = (if totalWagered g > 0 then (bankroll g - 1000) / totalWagered g * 100 else 0)"
    using assms by (auto simp: getStats_def Let_def)
  have "st_profit s = bankroll g - startingBankroll \<longleftrightarrow> startingBankroll = 1000"
    unfolding s by auto
  moreover have "st_roi s = (bankroll g - startingBankroll) / totalWagered g * 100
      \<longleftrightarrow> startingBankroll = 1000" if "totalWagered g > 0"
    using that unfolding s by (auto simp: divide_simps)
  ultimately show ?thesis using s by blast
qed

theorem getStats_profit_roi_witness:
  "case BlackjackGame_init (\<lambda>xs. xs) 500 10 True (Finite 0.75) True (- 1) of
     Inl e \<Rightarrow> False
   | Inr g0 \<Rightarrow>
       (let g = g0\<lparr>bankroll := 600, totalWagered := 200\<rparr> in
        case getStats (Some g) of
          None \<Rightarrow> False
        | Some s \<Rightarrow> totalWagered g > 0 \<and> st_profit s = - 400 \<and> st_roi s = - 200
                    \<and> st_profit s \<noteq> bankroll g - 500
                    \<and> st_roi s \<noteq> (bankroll g - 500) / totalWagered g * 100)"
proof -
  obtain g0
    where g0: "BlackjackGame_init (\<lambda>xs. xs) 500 10 True (Finite 0.75) True (- 1) = Inr g0"
    by (simp add: BlackjackGame_init_moderate)
  define g where "g = g0\<lparr>bankroll := 600, totalWagered := 200\<rparr>"
  obtain s where s: "getStats (Some g) = Some s"
    by (simp add: getStats_def Let_def)
  have bw: "bankroll g = 600" "totalWagered g = 200"
    by (simp_all add: g_def)
  from getStats_profit_roi [OF s, of 500] bw
  have "st_profit s = - 400 \<and> st_roi s = - 200
      \<and> st_profit s \<noteq> bankroll g - 500
      \<and> st_roi s \<noteq> (bankroll g - 500) / totalWagered g * 100"
    by simp
  then show ?thesis
    using g0 s bw by (simp add: g_def [symmetric] Let_def)
qed

section \<open>The built shoe\<close>

lemma buildShoe_deck52: "buildShoe n = concat (replicate n deck52)"
  by (simp add: buildShoe_def deck52_def)

lemma length_deck52: "length deck52 = 52"
  by (simp add: deck52_def RANKS_def SUITS_def)

lemma countValue_deck52: "sum_list (map countValue deck52) = 0"
  by (simp add: deck52_def RANKS_def SUITS_def countValue_def)

lemma length_buildShoe: "length (buildShoe n) = 52 * n"
  by (induction n) (simp_all add: buildShoe_deck52 length_deck52)

lemma countValue_buildShoe: "sum_list (map countValue (buildShoe n)) = 0"
  by (induction n) (simp_all add: buildShoe_deck52 countValue_deck52)

lemma nth_concat_blocks:
  assumes "\<forall>xs \<in> set xss. length xs = m" and "k < m * length xss"
  shows "concat xss ! k = (xss ! (k div m)) ! (k mod m)"
  using assms
proof (induction xss arbitrary: k)
  case Nil
  then show ?case by simp
next
  case (Cons xs xss)
  have m: "length xs = m" using Cons.prems(1) by simp
  have pos: "0 < m" using Cons.prems(2) by (cases m) simp_all
  show ?case
  proof (cases "k < m")
    case True
    then show ?thesis using m by (simp add: nth_append)
  next
    case False
    then have k: "k = (k - m) + m" by simp
    have lt: "k - m < m * length xss" using Cons.prems(2) False by simp
    have d: "k div m = Suc ((k - m) div m)" and r: "k mod m = (k - m) mod m"
      using False pos by (simp_all add: le_div_geq le_mod_geq)
    have "concat (xs # xss) ! k = concat xss ! (k - m)"
      using False m by (simp add: nth_append)
    also have "\<dots> = (xss ! ((k - m) div m)) ! ((k - m) mod m)"
      using Cons.IH [OF _ lt] Cons.prems(1) by simp
    finally show ?thesis by (simp add: d r)
  qed
qed

lemma deck52_nth:
  assumes "j < 52"
  shows "deck52 ! j = \<lparr>rank = RANKS ! (j mod 13), suit = SUITS ! (j div 13)\<rparr>"
proof -
  let ?rows = "map (\<lambda>s. map (\<lambda>r. \<lparr>rank = r, suit = s\<rparr>) RANKS) SUITS"
  have len: "\<forall>xs \<in> set ?rows. length xs = 13" by (simp add: RANKS_def SUITS_def)
  have n: "length ?rows = 4" by (simp add: SUITS_def)
  have d: "j div 13 < 4" using assms by simp
  have r: "j mod 13 < length RANKS" by (simp add: RANKS_def)
  have "deck52 ! j = (?rows ! (j div 13)) ! (j mod 13)"
    unfolding deck52_def using assms n by (intro nth_concat_blocks [OF len]) simp
  also have "\<dots> = \<lparr>rank = RANKS ! (j mod 13), suit = SUITS ! (j div 13)\<rparr>"
  proof -
    have ls: "length SUITS = 4" by (simp add: SUITS_def)
    show ?thesis using d r ls by simp
  qed
  finally show ?thesis .
qed

lemma buildShoe_nth:
  assumes "k < 52 * n"
  shows "buildShoe n ! k = cardAt k"
proof -
  have len: "\<forall>xs \<in> set (replicate n deck52). length xs = 52" by (simp add: length_deck52)
  have d: "k div 52 < n" using assms by (simp add: less_mult_imp_div_less mult.commute)
  have "buildShoe n ! k = (replicate n deck52 ! (k div 52)) ! (k mod 52)"
    unfolding buildShoe_deck52 using assms by (intro nth_concat_blocks [OF len]) simp
  also have "\<dots> = deck52 ! (k mod 52)" using d by simp
  also have "\<dots> = cardAt k"
    by (simp add: deck52_nth cardAt_def mod_mod_cancel)
  finally show ?thesis .
qed

section \<open>Drawing and counting in the loops\<close>

lemma game_dealCard_Inl:
  "game_dealCard g = Inl (e, g') \<longleftrightarrow> deck_cards (deck g) = [] \<and> e = IndexError \<and> g' = g"
  by (auto simp: game_dealCard_def dealCard_def)

lemma game_dealCard_Inr:
  "game_dealCard g = Inr (c, g') \<longleftrightarrow>
     deck_cards (deck g) \<noteq> [] \<and> c = last (deck_cards (deck g))
     \<and> g' = g\<lparr>deck := (deck g)\<lparr>deck_cards := butlast (deck_cards (deck g))\<rparr>\<rparr>"
  by (auto simp: game_dealCard_def dealCard_def)

lemma dealerTurn_stand: "17 \<le> Hand_getValue dh \<Longrightarrow> dealerTurn g dh = Inr (dh, g)"
  by (simp add: dealerTurn.simps)

lemma dealerTurn_draw:
  "Hand_getValue dh < 17 \<Longrightarrow> game_dealCard g = Inr (c, g1) \<Longrightarrow>
     dealerTurn g dh = dealerTurn (game_countCard g1 c) (addCard dh c)"
  by (subst dealerTurn.simps) (simp add: Let_def)

lemma dealerTurn_empty:
  "Hand_getValue dh < 17 \<Longrightarrow> deck_cards (deck g) = [] \<Longrightarrow> dealerTurn g dh = Inl (IndexError, g)"
  by (subst dealerTurn.simps) (simp add: game_dealCard_def dealCard_def)

lemma dealerTurn_Inr:
  "dealerTurn g dh = Inr (dh', g') \<Longrightarrow>
     17 \<le> Hand_getValue dh' \<and> (\<exists>drawn. dealerTrace g dh g' dh' drawn)"
proof (induction g dh rule: dealerTurn.induct)
  case (1 g dh)
  show ?case
  proof (cases "Hand_getValue dh < 17")
    case False
    with "1.prems" have "dh' = dh" "g' = g" by (simp_all add: dealerTurn.simps)
    with False show ?thesis by (auto simp: dealerTrace_def intro: exI [of _ "[]"])
  next
    case True
    with "1.prems" obtain c g1 where d: "game_dealCard g = Inr (c, g1)"
      by (subst (asm) dealerTurn.simps) (auto split: sum.splits)
    with True "1.prems" have r: "dealerTurn (game_countCard g1 c) (addCard dh c) = Inr (dh', g')"
      by (simp add: dealerTurn_draw)
    from "1.IH" [OF True d refl refl refl r]
    obtain drawn where v: "17 \<le> Hand_getValue dh'"
      and t: "dealerTrace (game_countCard g1 c) (addCard dh c) g' dh' drawn" by blast
    have ne: "deck_cards (deck g) \<noteq> []" and c: "c = last (deck_cards (deck g))"
      and g1: "deck_cards (deck g1) = butlast (deck_cards (deck g))"
      using d by (auto simp: game_dealCard_Inr)
    have "dealerTrace g dh g' dh' (c # drawn)"
      unfolding dealerTrace_def
    proof (intro conjI allI impI)
      show "cards dh' = cards dh @ c # drawn"
        using t by (simp add: dealerTrace_def addCard_def)
      have "deck_cards (deck g) = butlast (deck_cards (deck g)) @ [c]"
        using ne c by simp
      also have "butlast (deck_cards (deck g)) = deck_cards (deck g') @ rev drawn"
        using t g1 by (simp add: dealerTrace_def game_countCard_def)
      finally show "deck_cards (deck g) = deck_cards (deck g') @ rev (c # drawn)" by simp
    next
      fix k assume k: "k < length (c # drawn)"
      show "Hand_getValue (dh\<lparr>cards := cards dh @ take k (c # drawn)\<rparr>) < 17"
      proof (cases k)
        case 0
        then show ?thesis using True by simp
      next
        case (Suc j)
        with k have "j < length drawn" by simp
        with t have "Hand_getValue ((addCard dh c)\<lparr>cards := cards (addCard dh c) @ take j drawn\<rparr>) < 17"
          by (simp add: dealerTrace_def)
        then show ?thesis using Suc by (simp add: addCard_def)
      qed
    qed
    with v show ?thesis by blast
  qed
qed

lemma dealerTurn_Inl:
  "dealerTurn g dh = Inl (e, g') \<Longrightarrow> e = IndexError \<and> deck_cards (deck g') = []"
proof (induction g dh rule: dealerTurn.induct)
  case (1 g dh)
  show ?case
  proof (cases "Hand_getValue dh < 17")
    case False
    with "1.prems" show ?thesis by (simp add: dealerTurn.simps)
  next
    case True
    show ?thesis
    proof (cases "game_dealCard g")
      case (Inl a)
      with True "1.prems" show ?thesis
        by (subst (asm) dealerTurn.simps) (cases a, auto simp: game_dealCard_Inl)
    next
      case (Inr b)
      obtain c g1 where b: "b = (c, g1)" by (cases b)
      with Inr True "1.prems" have "dealerTurn (game_countCard g1 c) (addCard dh c) = Inl (e, g')"
        by (simp add: dealerTurn_draw)
      with "1.IH" [OF True _ refl refl refl] Inr b show ?thesis by blast
    qed
  qed
qed


lemma stateAfter_simps [simp]:
  "stateAfter (Inl (e, g)) = g" "stateAfter (Inr (x, g)) = g"
  by (simp_all add: stateAfter_def)

lemma syncOf_updates [simp]:
  "syncOf (g\<lparr>bankroll := b\<rparr>) = syncOf g"
  "syncOf (g\<lparr>handsPlayed := n\<rparr>) = syncOf g"
  "syncOf (g\<lparr>handsWon := n\<rparr>) = syncOf g"
  "syncOf (g\<lparr>handsLost := n\<rparr>) = syncOf g"
  "syncOf (g\<lparr>handsPushed := n\<rparr>) = syncOf g"
  "syncOf (g\<lparr>handsSatOut := n\<rparr>) = syncOf g"
  "syncOf (g\<lparr>totalWagered := b\<rparr>) = syncOf g"
  "syncOf (g\<lparr>maxBankroll := b\<rparr>) = syncOf g"
  "syncOf (g\<lparr>minBankroll := b\<rparr>) = syncOf g"
  by (simp_all add: syncOf_def unseenCount_def)

lemma syncOf_updateBankrollStats [simp]: "syncOf (updateBankrollStats g) = syncOf g"
  by (simp add: updateBankrollStats_def Let_def)

lemma syncOf_determineWinner [simp]: "syncOf (snd (determineWinner g p d)) = syncOf g"
  by (simp add: determineWinner_def Let_def)

lemma game_dealCard_Inl_state: "game_dealCard g = Inl a \<Longrightarrow> a = (IndexError, g)"
  by (cases a) (simp add: game_dealCard_Inl)

lemma sum_list_map_butlast:
  fixes f :: "'a \<Rightarrow> int"
  shows "xs \<noteq> [] \<Longrightarrow> sum_list (map f (butlast xs)) + f (last xs) = sum_list (map f xs)"
  by (induction xs) auto

lemma syncOf_draw_count:
  assumes "game_dealCard g = Inr (c, g1)"
  shows "syncOf (game_countCard g1 c) = syncOf g"
proof -
  from assms have ne: "deck_cards (deck g) \<noteq> []" and c: "c = last (deck_cards (deck g))"
    and g1: "g1 = g\<lparr>deck := (deck g)\<lparr>deck_cards := butlast (deck_cards (deck g))\<rparr>\<rparr>"
    by (auto simp: game_dealCard_Inr)
  have "sum_list (map countValue (deck_cards (deck g)))
      = sum_list (map countValue (butlast (deck_cards (deck g)))) + countValue c"
    using sum_list_map_butlast [OF ne, of countValue] c by simp
  moreover have "int (length (butlast (deck_cards (deck g))))
      = int (length (deck_cards (deck g))) - 1"
    using ne by (cases "deck_cards (deck g)") simp_all
  ultimately show ?thesis
    by (simp add: syncOf_def unseenCount_def g1 game_countCard_def countCard_def)
qed

lemma burnLoop_sync: "syncOf (stateAfter (burnLoop n g burned)) = syncOf g"
proof (induction n g burned rule: burnLoop.induct)
  case (1 g burned)
  show ?case by simp
next
  case (2 n g burned)
  show ?case
  proof (cases "deck_cards (deck g) = []")
    case True
    then show ?thesis using "2.IH"(2) by simp
  next
    case False
    then obtain c g1 where d: "game_dealCard g = Inr (c, g1)"
      by (simp add: game_dealCard_Inr)
    have "syncOf (stateAfter (burnLoop n (game_countCard g1 c) (burned @ [c])))
        = syncOf (game_countCard g1 c)"
      using "2.IH"(1) [OF _ d refl refl] False by simp
    then show ?thesis
      using d False by (simp add: Let_def syncOf_draw_count)
  qed
qed

lemma initialDeal_sync: "syncOf (stateAfter (initialDeal n g p d)) = syncOf g"
proof (induction n g p d rule: initialDeal.induct)
  case (1 g p d)
  show ?case by simp
next
  case (2 n g p d)
  show ?case
  proof (cases "game_dealCard g")
    case (Inl a)
    then show ?thesis using game_dealCard_Inl_state [OF Inl] by simp
  next
    case (Inr b)
    obtain c g1 where b: "b = (c, g1)" by (cases b)
    note d1 = Inr [unfolded b]
    let ?g2 = "game_countCard g1 c"
    have s1: "syncOf ?g2 = syncOf g" using d1 by (rule syncOf_draw_count)
    show ?thesis
    proof (cases "game_dealCard ?g2")
      case (Inl a)
      then show ?thesis using d1 s1 game_dealCard_Inl_state [OF Inl] by (simp add: Let_def)
    next
      case (Inr b2)
      obtain c2 g3 where b2: "b2 = (c2, g3)" by (cases b2)
      note d2 = Inr [unfolded b2]
      have "syncOf (stateAfter (initialDeal n (game_countCard g3 c2) (addCard p c) (addCard d c2)))
          = syncOf (game_countCard g3 c2)"
        using "2.IH" [OF d1 refl refl refl d2 refl refl refl] .
      then show ?thesis
        using d1 d2 s1 syncOf_draw_count [OF d2] by (simp add: Let_def)
    qed
  qed
qed

lemma dealerTurn_sync: "syncOf (stateAfter (dealerTurn g dh)) = syncOf g"
proof (induction g dh rule: dealerTurn.induct)
  case (1 g dh)
  show ?case
  proof (cases "Hand_getValue dh < 17")
    case False
    then show ?thesis by (simp add: dealerTurn.simps)
  next
    case True
    show ?thesis
    proof (cases "game_dealCard g")
      case (Inl a)
      have "deck_cards (deck g) = []"
        using game_dealCard_Inl_state [OF Inl] Inl by (simp add: game_dealCard_Inl)
      then show ?thesis using True by (simp add: dealerTurn_empty)
    next
      case (Inr b)
      obtain c g1 where b: "b = (c, g1)" by (cases b)
      note d = Inr [unfolded b]
      from "1.IH" [OF True d refl refl refl] syncOf_draw_count [OF d]
      show ?thesis using True d by (simp add: dealerTurn_draw)
    qed
  qed
qed

lemma getAction_noSplit:
  "getAction h u cd False =
     Inr (if isSoft h \<and> length (cards h) = 2
          then softHandStrategy (Hand_getValue h) (Card_getValue u) cd
          else hardHandStrategy (Hand_getValue h) (Card_getValue u) cd)"
  by (simp add: getAction_def Let_def)

lemma strategies_never_split:
  "softHandStrategy p d cd \<noteq> SPLIT" "hardHandStrategy p d cd \<noteq> SPLIT"
  by (simp_all add: softHandStrategy_def hardHandStrategy_def)

lemma getAction_noSplit_action: "getAction h u cd False \<noteq> Inr SPLIT"
  by (simp add: getAction_noSplit strategies_never_split)

lemma playPlayerHand_sync: "syncOf (stateAfter (playPlayerHand g ph up)) = syncOf g"
proof (induction g ph up rule: playPlayerHand.induct)
  case (1 g ph up)
  define cd where "cd \<longleftrightarrow> length (cards ph) = 2 \<and> betAmount ph \<le> bankroll g"
  obtain action where a: "getAction ph up cd False = Inr action"
    by (simp add: getAction_noSplit)
  show ?case
  proof (cases "game_dealCard g")
    case (Inl x)
    have x: "x = (IndexError, g)" using Inl by (rule game_dealCard_Inl_state)
    show ?thesis
      by (subst playPlayerHand.simps) (simp add: Let_def cd_def [symmetric] a Inl x)
  next
    case (Inr b)
    obtain c g1 where b: "b = (c, g1)" by (cases b)
    note d = Inr [unfolded b]
    note s = syncOf_draw_count [OF d]
    have rec: "syncOf (stateAfter (playPlayerHand (game_countCard g1 c) (addCard ph c) up)) = syncOf g"
      if "action = HIT \<or> (action = DOUBLE \<and> \<not> cd)" "\<not> isBusted (addCard ph c)"
      using that "1.IH"(1) [OF cd_def [THEN eq_reflection, THEN meta_eq_to_obj_eq] a _ d refl refl refl]
        "1.IH"(2) [OF cd_def [THEN eq_reflection, THEN meta_eq_to_obj_eq] a _ _ _ _ d refl refl refl] s
      by (cases action) auto
    show ?thesis
      apply (subst playPlayerHand.simps)
      using rec s
      by (cases action) (auto simp: Let_def cd_def [symmetric] a d)
  qed
qed

lemma initialDeal_results:
  "initialDeal n g p d = Inl (e, g') \<Longrightarrow> syncOf g' = syncOf g"
  "initialDeal n g p d = Inr (x, g') \<Longrightarrow> syncOf g' = syncOf g"
  using initialDeal_sync [of n g p d] by simp_all

lemma burnLoop_results:
  "burnLoop n g bs = Inl (e, g') \<Longrightarrow> syncOf g' = syncOf g"
  "burnLoop n g bs = Inr (x, g') \<Longrightarrow> syncOf g' = syncOf g"
  using burnLoop_sync [of n g bs] by simp_all

lemma playPlayerHand_results:
  "playPlayerHand g p u = Inl (e, g') \<Longrightarrow> syncOf g' = syncOf g"
  "playPlayerHand g p u = Inr (x, g') \<Longrightarrow> syncOf g' = syncOf g"
  using playPlayerHand_sync [of g p u] by simp_all

lemma dealerTurn_results:
  "dealerTurn g d = Inl (e, g') \<Longrightarrow> syncOf g' = syncOf g"
  "dealerTurn g d = Inr (x, g') \<Longrightarrow> syncOf g' = syncOf g"
  using dealerTurn_sync [of g d] by simp_all

lemma determineWinner_result:
  "determineWinner g p d = (x, g') \<Longrightarrow> syncOf g' = syncOf g"
  using syncOf_determineWinner [of g p d] by simp

lemmas phase_results = initialDeal_results burnLoop_results playPlayerHand_results
  dealerTurn_results determineWinner_result


lemma resolveHand_sync: "syncOf (stateAfter (resolveHand bet p d g)) = syncOf g"
  unfolding resolveHand_def Let_def
  by (auto simp: phase_results split: sum.splits prod.splits option.splits list.splits)

lemma resolveHand_results:
  "resolveHand bet p d g = Inl (e, g') \<Longrightarrow> syncOf g' = syncOf g"
  "resolveHand bet p d g = Inr (x, g') \<Longrightarrow> syncOf g' = syncOf g"
  using resolveHand_sync [of bet p d g] by simp_all


lemma playHand_sync:
  "syncOf (stateAfter (playHand shuffle g)) = syncOf (reshuffleCheck shuffle g)"
  unfolding playHand_def Let_def
  by (auto simp: resolveHand_sync burnLoop_results initialDeal_results
      split: sum.splits prod.splits)

lemma shuffled_shoe:
  assumes "\<forall>xs. mset (shuffle xs) = mset xs"
  shows "length (shuffle (buildShoe n)) = 52 * n"
    and "sum_list (map countValue (shuffle (buildShoe n))) = 0"
proof -
  have m: "mset (shuffle (buildShoe n)) = mset (buildShoe n)" using assms by simp
  show "length (shuffle (buildShoe n)) = 52 * n"
    using mset_eq_length [OF m] by (simp add: length_buildShoe)
  have "sum_list (map countValue (shuffle (buildShoe n)))
      = sum_mset (image_mset countValue (mset (shuffle (buildShoe n))))"
    by (simp add: sum_mset_sum_list [symmetric])
  also have "\<dots> = sum_list (map countValue (buildShoe n))"
    unfolding m by (simp add: sum_mset_sum_list [symmetric])
  finally show "sum_list (map countValue (shuffle (buildShoe n))) = 0"
    by (simp add: countValue_buildShoe)
qed

lemma countInSync_syncOf:
  "countInSync g \<longleftrightarrow> syncOf g = (int (52 * numDecks (deck g)), 0, numDecks (deck g))"
  by (auto simp: countInSync_def syncOf_def)

lemma Hand_getValue_cards: "cards h = cards h' \<Longrightarrow> Hand_getValue h = Hand_getValue h'"
  by (simp add: Hand_getValue_def rawTotal_def countAces_def)

section \<open>The dealer's turn\<close>

text \<open>
  Claim C8.  The dealer's loop either runs out of cards (the draw from the empty shoe
  raises; this needs a hand below 17) or ends with a hand worth at least 17.  It draws
  nothing when the hand is already worth 17 or more, soft 17 included, and at least one
  card when the hand is worth less; every card it draws is drawn at a value below 17.
\<close>

theorem dealerTurn_stands_on_17:
  "case dealerTurn g dealerHand of
     Inl (e, g') \<Rightarrow>
       e = IndexError \<and> deck_cards (deck g') = [] \<and> Hand_getValue dealerHand < 17
   | Inr (dealerHand', g') \<Rightarrow>
       17 \<le> Hand_getValue dealerHand'
       \<and> (\<exists>drawn. dealerTrace g dealerHand g' dealerHand' drawn)
       \<and> (17 \<le> Hand_getValue dealerHand \<longrightarrow> dealerHand' = dealerHand \<and> g' = g)
       \<and> (Hand_getValue dealerHand < 17 \<longrightarrow>
            length (cards dealerHand) < length (cards dealerHand'))"
proof (cases "dealerTurn g dealerHand")
  case (Inl a)
  obtain e g' where a: "a = (e, g')" by (cases a)
  have "Hand_getValue dealerHand < 17"
    using Inl dealerTurn_stand [of dealerHand g] by (cases "Hand_getValue dealerHand < 17") auto
  with dealerTurn_Inl [OF Inl [unfolded a]] show ?thesis
    by (simp add: Inl a)
next
  case (Inr b)
  obtain dh' g' where b: "b = (dh', g')" by (cases b)
  note r = Inr [unfolded b]
  from dealerTurn_Inr [OF r] obtain drawn
    where v: "17 \<le> Hand_getValue dh'" and t: "dealerTrace g dealerHand g' dh' drawn"
    by blast
  have stand: "dh' = dealerHand \<and> g' = g" if "17 \<le> Hand_getValue dealerHand"
    using dealerTurn_stand [OF that, of g] r by simp
  have draw: "length (cards dealerHand) < length (cards dh')" if "Hand_getValue dealerHand < 17"
  proof -
    have "drawn \<noteq> []"
    proof
      assume "drawn = []"
      with t have "cards dh' = cards dealerHand" by (simp add: dealerTrace_def)
      from Hand_getValue_cards [OF this] v that show False by simp
    qed
    with t show ?thesis by (simp add: dealerTrace_def)
  qed
  from v t stand draw show ?thesis
    by (auto simp: Inr b)
qed

theorem dealerTurn_stands_on_17_witness:
  "Hand_getValue (handOf [RA, R6]) = 17
   \<and> isSoft (handOf [RA, R6])
   \<and> dealerTurn (sessionWithShoe [\<lparr>rank = RK, suit = Spades\<rparr>, \<lparr>rank = R5, suit = Hearts\<rparr>,
                                   \<lparr>rank = R2, suit = Clubs\<rparr>]) (handOf [RA, R6])
       = Inr (handOf [RA, R6],
              sessionWithShoe [\<lparr>rank = RK, suit = Spades\<rparr>, \<lparr>rank = R5, suit = Hearts\<rparr>,
                               \<lparr>rank = R2, suit = Clubs\<rparr>])
   \<and> Hand_getValue (handOf [R10, R4]) < 17
   \<and> (case dealerTurn (sessionWithShoe [\<lparr>rank = RK, suit = Spades\<rparr>,
                                         \<lparr>rank = R5, suit = Hearts\<rparr>,
                                         \<lparr>rank = R2, suit = Clubs\<rparr>]) (handOf [R10, R4]) of
         Inl x \<Rightarrow> False
       | Inr (dealerHand', g') \<Rightarrow>
           map rank (cards dealerHand') = [R10, R4, R2, R5]
           \<and> Hand_getValue dealerHand' = 21
           \<and> deck_cards (deck g') = [\<lparr>rank = RK, suit = Spades\<rparr>])"
  using dealerTurn_stands_on_17
      [where g = "sessionWithShoe [\<lparr>rank = RK, suit = Spades\<rparr>, \<lparr>rank = R5, suit = Hearts\<rparr>,
                            \<lparr>rank = R2, suit = Clubs\<rparr>]" and dealerHand = "handOf [RA, R6]"]
    dealerTurn_stands_on_17
      [where g = "sessionWithShoe [\<lparr>rank = RK, suit = Spades\<rparr>, \<lparr>rank = R5, suit = Hearts\<rparr>,
                            \<lparr>rank = R2, suit = Clubs\<rparr>]" and dealerHand = "handOf [R10, R4]"]
  by (simp add: dealerTurn.simps sessionWithShoe_def handOf_def Hand_init_def
      Hand_getValue_def rawTotal_def countAces_def Card_getValue_def aceReduction.simps
      isSoft_def game_dealCard_def dealCard_def game_countCard_def countCard_def
      countValue_def addCard_def Let_def)

section \<open>Counting every card\<close>

lemma reshuffleCheck_cases:
  "\<not> needsReshuffle (deck g) (reshufflePoint g) \<Longrightarrow> reshuffleCheck shuffle g = g"
  "needsReshuffle (deck g) (reshufflePoint g) \<Longrightarrow>
     reshuffleCheck shuffle g =
       g\<lparr>deck := (deck g)\<lparr>deck_cards := shuffle (buildShoe (numDecks (deck g)))\<rparr>,
         counter := \<lparr>runningCount = 0, cardsSeen = 0\<rparr>\<rparr>"
  by (simp_all add: reshuffleCheck_def Deck_reset_def CardCounter_reset_def Let_def)

lemma reshuffleCheck_fresh:
  assumes "\<forall>xs. mset (shuffle xs) = mset xs"
    and "needsReshuffle (deck g) (reshufflePoint g)"
  shows "syncOf (reshuffleCheck shuffle g) = (int (52 * numDecks (deck g)), 0, numDecks (deck g))"
  using shuffled_shoe [OF assms(1), of "numDecks (deck g)"]
  by (simp add: reshuffleCheck_cases(2) [OF assms(2)] syncOf_def unseenCount_def)

text \<open>
  Claim C7.  Whatever path a \<open>playHand\<close> call takes, and whether it returns or raises, the
  counter advances by exactly the cards that leave the shoe: without a reshuffle, cards-seen
  grows by the number of cards removed and the running count by their Hi-Lo sum; a reshuffle
  (the shuffle being a permutation of the built shoe) first sets running count and cards-seen
  to 0 on a full shoe.  Hence, from session creation on, cards-seen is the number of cards
  dealt from the current shoe and the running count is their Hi-Lo sum.
\<close>

theorem playHand_counts_every_card:
  assumes "\<forall>xs. mset (shuffle xs) = mset xs"
    and "g' = stateAfter (playHand shuffle g)"
  shows "(\<not> needsReshuffle (deck g) (reshufflePoint g) \<longrightarrow>
            cardsSeen (counter g') - cardsSeen (counter g)
              = int (length (deck_cards (deck g))) - int (length (deck_cards (deck g')))
          \<and> runningCount (counter g') - runningCount (counter g)
              = unseenCount g - unseenCount g')
    \<and> (needsReshuffle (deck g) (reshufflePoint g) \<longrightarrow>
            counter (reshuffleCheck shuffle g) = \<lparr>runningCount = 0, cardsSeen = 0\<rparr>
          \<and> length (deck_cards (deck (reshuffleCheck shuffle g))) = 52 * numDecks (deck g)
          \<and> countInSync g')
    \<and> (countInSync g \<longrightarrow> countInSync g')
    \<and> (\<forall>g0. BlackjackGame_init shuffle startingBankroll baseBet0 counting penetration0
                wonging threshold = Inr g0
              \<longrightarrow> countInSync g0 \<and> counter g0 = \<lparr>runningCount = 0, cardsSeen = 0\<rparr>)"
proof -
  have sync: "syncOf g' = syncOf (reshuffleCheck shuffle g)"
    unfolding assms(2) by (rule playHand_sync)
  have quiet: "cardsSeen (counter g') - cardsSeen (counter g)
        = int (length (deck_cards (deck g))) - int (length (deck_cards (deck g')))
      \<and> runningCount (counter g') - runningCount (counter g) = unseenCount g - unseenCount g'"
    if "\<not> needsReshuffle (deck g) (reshufflePoint g)"
    using sync by (simp add: reshuffleCheck_cases(1) [OF that] syncOf_def)
  have fresh: "counter (reshuffleCheck shuffle g) = \<lparr>runningCount = 0, cardsSeen = 0\<rparr>
      \<and> length (deck_cards (deck (reshuffleCheck shuffle g))) = 52 * numDecks (deck g)
      \<and> countInSync g'"
    if n: "needsReshuffle (deck g) (reshufflePoint g)"
  proof -
    have "syncOf g' = (int (52 * numDecks (deck g)), 0, numDecks (deck g))"
      using sync reshuffleCheck_fresh [OF assms(1) n] by simp
    then have "countInSync g'"
      by (simp add: countInSync_def syncOf_def)
    then show ?thesis
      using shuffled_shoe(1) [OF assms(1), of "numDecks (deck g)"]
      by (simp add: reshuffleCheck_cases(2) [OF n])
  qed
  have keep: "countInSync g'" if c: "countInSync g"
  proof (cases "needsReshuffle (deck g) (reshufflePoint g)")
    case True
    then show ?thesis using fresh by simp
  next
    case False
    have "syncOf g' = syncOf g"
      using sync by (simp add: reshuffleCheck_cases(1) [OF False])
    with c show ?thesis by (simp add: countInSync_def syncOf_def)
  qed
  have init: "countInSync g0 \<and> counter g0 = \<lparr>runningCount = 0, cardsSeen = 0\<rparr>"
    if "BlackjackGame_init shuffle startingBankroll baseBet0 counting penetration0
          wonging threshold = Inr g0" for g0
    using that shuffled_shoe [OF assms(1), of 6]
    by (auto simp: BlackjackGame_init_def Deck_init_def Deck_reset_def CardCounter_init_def
        countInSync_def unseenCount_def Let_def split: sum.splits)
  from quiet fresh keep init show ?thesis by blast
qed

theorem playHand_counts_every_card_witness:
  "(\<forall>xs::Card list. mset (rev xs) = mset xs)
   \<and> \<not> needsReshuffle (deck (sessionWithShoe (buildShoe 6)))
          (reshufflePoint (sessionWithShoe (buildShoe 6)))
   \<and> countInSync (sessionWithShoe (buildShoe 6))
   \<and> countInSync (stateAfter (playHand rev (sessionWithShoe (buildShoe 6))))
   \<and> needsReshuffle (deck (sessionWithShoe [\<lparr>rank = RK, suit = Spades\<rparr>]))
        (reshufflePoint (sessionWithShoe [\<lparr>rank = RK, suit = Spades\<rparr>]))
   \<and> countInSync (stateAfter (playHand rev (sessionWithShoe [\<lparr>rank = RK, suit = Spades\<rparr>])))"
proof -
  have p: "\<forall>xs::Card list. mset (rev xs) = mset xs" by simp
  have full: "\<not> needsReshuffle (deck (sessionWithShoe (buildShoe 6)))
      (reshufflePoint (sessionWithShoe (buildShoe 6)))"
    by (simp add: needsReshuffle_def sessionWithShoe_def length_buildShoe)
  have sync: "countInSync (sessionWithShoe (buildShoe 6))"
    by (simp add: countInSync_def unseenCount_def sessionWithShoe_def length_buildShoe
        countValue_buildShoe)
  have low: "needsReshuffle (deck (sessionWithShoe [\<lparr>rank = RK, suit = Spades\<rparr>]))
      (reshufflePoint (sessionWithShoe [\<lparr>rank = RK, suit = Spades\<rparr>]))"
    by (simp add: needsReshuffle_def sessionWithShoe_def)
  from playHand_counts_every_card [OF p refl, of "sessionWithShoe (buildShoe 6)"] full sync
  have a: "countInSync (stateAfter (playHand rev (sessionWithShoe (buildShoe 6))))"
    by blast
  from playHand_counts_every_card [OF p refl, of "sessionWithShoe [\<lparr>rank = RK, suit = Spades\<rparr>]"]
    low
  have b: "countInSync (stateAfter (playHand rev (sessionWithShoe [\<lparr>rank = RK, suit = Spades\<rparr>])))"
    by blast
  from p full sync a low b show ?thesis by blast
qed

section \<open>Insufficient funds\<close>

text \<open>
  Claim C5, as stated: a call that finds the bankroll below the bet changes nothing.  It
  fails when the call starts below the reshuffle point, since the reshuffle check runs
  before the bet is computed.  A session created with bankroll 20, base bet 10 and
  penetration 0.01 (reshuffle point 308), whose shuffle leaves the built shoe rotated by
  five cards, doubles and loses its first hand (six cards; bankroll 0); the second call
  rebuilds the shoe and resets the counter, then finds bankroll 0 below the bet 10 and
  returns 0.
\<close>

theorem playHand_insufficient_funds_counterexample:
  "case BlackjackGame_init (rotate 5) 20 10 True (Finite 0.01) True (- 1) of
     Inl e \<Rightarrow> False
   | Inr g \<Rightarrow>
       reshufflePoint g = 308 \<and>
       (case playHand (rotate 5) g of
          Inl e \<Rightarrow> False
        | Inr (p1, g1) \<Rightarrow>
            p1 = - 20 \<and> bankroll g1 = 0
            \<and> length (deck_cards (deck g1)) = 306
            \<and> counter g1 = \<lparr>runningCount = 4, cardsSeen = 6\<rparr>
            \<and> (case playHand (rotate 5) g1 of
                  Inl e \<Rightarrow> False
                | Inr (p2, g2) \<Rightarrow>
                    p2 = 0 \<and> bankroll g2 = bankroll g1
                    \<and> length (deck_cards (deck g2)) = 312
                    \<and> counter g2 = \<lparr>runningCount = 0, cardsSeen = 0\<rparr>
                    \<and> deck g2 \<noteq> deck g1 \<and> counter g2 \<noteq> counter g1))"
proof -
  have i: "BlackjackGame_init (rotate 5) 20 10 True (Finite 0.01) True (- 1) =
      Inr \<lparr>deck = Deck_init (rotate 5) 6, bankroll = 20, baseBet = 10,
           useCardCounting = True, useWonging = True, wongingThreshold = - 1,
           penetration = Finite 0.01, reshufflePoint = 308,
           counter = CardCounter_init,
           bankrollManager = \<lparr>bm_baseBet = 10, maxBetMultiplier = 10\<rparr>,
           handsPlayed = 0, handsWon = 0, handsLost = 0, handsPushed = 0, handsSatOut = 0,
           totalWagered = 0, maxBankroll = 20, minBankroll = 20\<rparr>"
    by (simp add: BlackjackGame_init_moderate truncReal_def)
  show ?thesis
    unfolding i by code_simp
qed


text \<open>
  Claim C5, amended.  When the round is not sat out and the bankroll is below the computed
  bet, \<open>playHand\<close> returns 0 without drawing a card and leaves bankroll and all aggregate
  statistics as they were.  Shoe and counter are as they were too unless the shoe was below
  the reshuffle point at the start of the call; then the shoe is rebuilt and the counter
  reset, and nothing else changes.
\<close>

theorem playHand_insufficient_funds:
  assumes "g1 = reshuffleCheck shuffle g"
    and "trueCount = getTrueCount (counter g1) (decksRemaining (deck g1))"
    and "bet = (if useCardCounting g1
                then getBetAmount (bankrollManager g1) trueCount (bankroll g1)
                else baseBet g1)"
    and "\<not> (useWonging g1 \<and> trueCount < wongingThreshold g1)"
    and "bankroll g1 < bet"
  shows "playHand shuffle g = Inr (0, g1)
    \<and> (\<not> needsReshuffle (deck g) (reshufflePoint g) \<longrightarrow> g1 = g)
    \<and> (needsReshuffle (deck g) (reshufflePoint g) \<longrightarrow>
          g1 = g\<lparr>deck := (deck g)\<lparr>deck_cards := shuffle (buildShoe (numDecks (deck g)))\<rparr>,
                 counter := \<lparr>runningCount = 0, cardsSeen = 0\<rparr>\<rparr>)
    \<and> bankroll g1 = bankroll g \<and> totalWagered g1 = totalWagered g
    \<and> handsPlayed g1 = handsPlayed g \<and> handsWon g1 = handsWon g
    \<and> handsLost g1 = handsLost g \<and> handsPushed g1 = handsPushed g
    \<and> handsSatOut g1 = handsSatOut g
    \<and> maxBankroll g1 = maxBankroll g \<and> minBankroll g1 = minBankroll g"
proof -
  have run: "playHand shuffle g = Inr (0, g1)"
    using assms(4,5) unfolding playHand_def Let_def assms(1,2,3) by auto
  have same: "g1 = g" if "\<not> needsReshuffle (deck g) (reshufflePoint g)"
    using that by (simp add: assms(1) reshuffleCheck_cases(1))
  have fresh: "g1 = g\<lparr>deck := (deck g)\<lparr>deck_cards := shuffle (buildShoe (numDecks (deck g)))\<rparr>,
                 counter := \<lparr>runningCount = 0, cardsSeen = 0\<rparr>\<rparr>"
    if "needsReshuffle (deck g) (reshufflePoint g)"
    using that by (simp add: assms(1) reshuffleCheck_cases(2))
  have rest: "bankroll g1 = bankroll g \<and> totalWagered g1 = totalWagered g
    \<and> handsPlayed g1 = handsPlayed g \<and> handsWon g1 = handsWon g
    \<and> handsLost g1 = handsLost g \<and> handsPushed g1 = handsPushed g
    \<and> handsSatOut g1 = handsSatOut g
    \<and> maxBankroll g1 = maxBankroll g \<and> minBankroll g1 = minBankroll g"
    by (cases "needsReshuffle (deck g) (reshufflePoint g)")
       (simp_all add: assms(1) reshuffleCheck_cases)
  from run same fresh rest show ?thesis by blast
qed

theorem playHand_insufficient_funds_witness:
  "\<not> needsReshuffle (deck brokeSession) (reshufflePoint brokeSession)
   \<and> reshuffleCheck rev brokeSession = brokeSession
   \<and> getTrueCount (counter brokeSession) (decksRemaining (deck brokeSession)) = 0
   \<and> getBetAmount (bankrollManager brokeSession) 0 (bankroll brokeSession) = 10
   \<and> bankroll brokeSession < 10
   \<and> playHand rev brokeSession = Inr (0, brokeSession)"
proof -
  have n: "\<not> needsReshuffle (deck brokeSession) (reshufflePoint brokeSession)"
    by (simp add: brokeSession_def needsReshuffle_def sessionWithShoe_def length_buildShoe)
  have r: "reshuffleCheck rev brokeSession = brokeSession"
    using n by (rule reshuffleCheck_cases(1))
  have t: "getTrueCount (counter brokeSession) (decksRemaining (deck brokeSession)) = 0"
    by (simp add: brokeSession_def getTrueCount_def decksRemaining_def sessionWithShoe_def
        length_buildShoe countValue_buildShoe)
  have b: "getBetAmount (bankrollManager brokeSession) 0 (bankroll brokeSession) = 10"
    by (simp add: brokeSession_def sessionWithShoe_def getBetAmount_def)
  have c: "useCardCounting brokeSession" "wongingThreshold brokeSession = - 1"
    "bankroll brokeSession = 5"
    by (simp_all add: brokeSession_def sessionWithShoe_def)
  have e: "10 = (if useCardCounting brokeSession
                 then getBetAmount (bankrollManager brokeSession) 0 (bankroll brokeSession)
                 else baseBet brokeSession)"
    using b c by simp
  have w: "\<not> (useWonging brokeSession \<and> 0 < wongingThreshold brokeSession)"
    using c by simp
  have l: "bankroll brokeSession < 10" using c by simp
  have "playHand rev brokeSession = Inr (0, brokeSession)"
    using playHand_insufficient_funds [OF r [symmetric] t [symmetric] e w l] by blast
  with n r t b c show ?thesis by simp
qed

section \<open>Drawing from an empty shoe\<close>

text \<open>Evaluation of a run on the shoe in built order: the shoe stays folded as a prefix of
  the built shoe, and its top card is read off by position.\<close>

lemma length_shoe6: "length (buildShoe 6) = 312"
  by (simp add: length_buildShoe)

lemma shoe6_nonempty: "buildShoe 6 \<noteq> []"
  using length_shoe6 by auto

lemma last_take_shoe6:
  assumes "0 < n" and "n \<le> 312"
  shows "last (take n (buildShoe 6)) = cardAt (n - 1)"
proof -
  have ne: "take n (buildShoe 6) \<noteq> []" using assms shoe6_nonempty by simp
  have "last (take n (buildShoe 6)) = take n (buildShoe 6) ! (length (take n (buildShoe 6)) - 1)"
    using ne by (rule last_conv_nth)
  also have "\<dots> = buildShoe 6 ! (n - 1)" using assms by (simp add: length_shoe6 min_def)
  also have "\<dots> = cardAt (n - 1)" using assms by (intro buildShoe_nth) simp
  finally show ?thesis .
qed

lemma butlast_take_shoe6: "n \<le> 312 \<Longrightarrow> butlast (take n (buildShoe 6)) = take (n - 1) (buildShoe 6)"
  by (simp add: butlast_take length_shoe6)

lemma last_shoe6: "last (buildShoe 6) = cardAt 311"
  using last_take_shoe6 [of 312] by (simp add: length_shoe6)

lemma butlast_shoe6: "butlast (buildShoe 6) = take 311 (buildShoe 6)"
  using butlast_take_shoe6 [of 312] by (simp add: length_shoe6)

lemma initialDeal_2: "initialDeal 2 g p d = initialDeal (Suc (Suc 0)) g p d"
  by (simp add: numeral_2_eq_2)

lemma playHands_numeral:
  "playHands (replicate (numeral k) sh) g =
     (case playHand sh g of Inl e \<Rightarrow> Inl e | Inr (p, g') \<Rightarrow> playHands (replicate (pred_numeral k) sh) g')"
  by (simp add: numeral_eq_Suc)

lemma playHands_1:
  "playHands (replicate 1 sh) g =
     (case playHand sh g of Inl e \<Rightarrow> Inl e | Inr (p, g') \<Rightarrow> Inr g')"
  by (simp split: sum.splits)

lemmas run_simps = length_shoe6 shoe6_nonempty last_shoe6 butlast_shoe6
  last_take_shoe6 butlast_take_shoe6
  playHand_def resolveHand_def Let_def reshuffleCheck_def needsReshuffle_def
  game_dealCard_def dealCard_def game_countCard_def countCard_def countValue_def
  addCard_def Hand_init_def isBlackjack_def isBusted_def Hand_getValue_def rawTotal_def
  countAces_def aceReduction.simps playPlayerHand.simps dealerTurn.simps
  getAction_def isSoft_def softHandStrategy_def hardHandStrategy_def Card_getValue_def
  determineWinner_def updateBankrollStats_def cardAt_def RANKS_def SUITS_def
  initialDeal_2 playHands_numeral playHands_1

text \<open>
  Claim C4.  A session created with penetration 0.999 has reshuffle point
  \<open>int(312 * 0.001) = 0\<close>, so the reshuffle check never fires.  With flat bets, no
  sitting out and the shoe left in built order by the shuffle, 56 hands use up all 312
  cards; the 57th call finds the shoe empty, does not reshuffle, and its first
  \<open>dealCard\<close> raises \<open>IndexError\<close>.
\<close>

theorem playHand_draws_from_empty_shoe:
  "case BlackjackGame_init (\<lambda>xs. xs) 1000 10 False (Finite 0.999) False (- 1) of
     Inl e \<Rightarrow> False
   | Inr g \<Rightarrow>
       reshufflePoint g = 0
       \<and> (case playHands (replicate 56 (\<lambda>xs. xs)) g of
            Inl e \<Rightarrow> False
          | Inr g' \<Rightarrow>
              deck_cards (deck g') = [] \<and> handsPlayed g' = 56 \<and> bankroll g' = 1600
              \<and> \<not> needsReshuffle (deck g') (reshufflePoint g')
              \<and> (case playHand (\<lambda>xs. xs) g' of
                    Inl (e, g'') \<Rightarrow> e = IndexError
                  | Inr r \<Rightarrow> False))"
  by (simp add: BlackjackGame_init_moderate Deck_init_def Deck_reset_def truncReal_def
      CardCounter_init_def run_simps
      split del: if_split cong: prod.case_cong_weak let_weak_cong)

section \<open>What session creation accepts\<close>




end
